theory Spec2Isabelle
  imports Main
begin

section \<open>The shader compiler of gioui.org/cpu: layout parser, metadata scan, emitters\<close>

text \<open>
  The development follows \<^verbatim>\<open>cmd/compile/main.go\<close> of the vendored module
  \<^verbatim>\<open>gioui.org/cpu\<close> (the second half of the source file; the first half is the
  example program, which only calls the runtime).

  Text that is scanned (the \<^verbatim>\<open>-layout\<close> flag, the output of the disassembler) is
  a list of runes, the sequence \<^verbatim>\<open>ReadRune\<close> delivers for the Go string: the
  scanner of package \<^verbatim>\<open>fmt\<close> works rune by rune, and its notion of space is
  Unicode's. All separators the program looks for (comma, newline, the
  words \<^verbatim>\<open>OpExecutionMode\<close>, \<^verbatim>\<open>LocalSize\<close>, \<^verbatim>\<open>OpControlBarrier\<close>) are ASCII,
  and in UTF-8 an ASCII byte is always a rune of its own, so splitting and
  searching the rune sequence is the same as splitting and searching the
  bytes. Text that is only produced (file names, generated sources) is a
  \<^typ>\<open>string\<close>, a list of bytes.
\<close>

type_synonym rune = nat

abbreviation runes :: "string \<Rightarrow> rune list" where
  "runes \<equiv> map of_char"

subsection \<open>Package fmt: the scanner behind Sscanf\<close>

text \<open>
  \<^verbatim>\<open>fmt.Sscanf\<close> belongs to Go's standard library. The definitions below follow
  \<^verbatim>\<open>fmt/scan.go\<close>: every \<^verbatim>\<open>panic(scanError{...})\<close> and \<^verbatim>\<open>panic(io.EOF)\<close> that
  \<^verbatim>\<open>errorHandler\<close> turns into the returned error is an \<open>Inl\<close> here. The scanner
  state is the input that is still unread.
\<close>

datatype scanError =
    ErrEOF
  | ErrUnexpectedEOF
  | ErrUnexpectedNewline
  | ErrExpectedInteger
  | ErrRange
  | ErrIntegerOverflow
  | ErrInputDoesNotMatchFormat
  | ErrExpectedSpace
  | ErrNewlineInInput

definition bindE :: "'e + 'a \<Rightarrow> ('a \<Rightarrow> 'e + 'b) \<Rightarrow> 'e + 'b" where
  "bindE m f = (case m of Inl e \<Rightarrow> Inl e | Inr x \<Rightarrow> f x)"

definition newline :: rune where
  "newline = 10"

text \<open>The table \<^verbatim>\<open>space\<close> of scan.go and the loop of \<^verbatim>\<open>isSpace\<close> over it.\<close>

definition space :: "(nat \<times> nat) list" where
  "space = [(0x0009, 0x000d), (0x0020, 0x0020), (0x0085, 0x0085), (0x00a0, 0x00a0),
            (0x1680, 0x1680), (0x2000, 0x200a), (0x2028, 0x2029), (0x202f, 0x202f),
            (0x205f, 0x205f), (0x3000, 0x3000)]"

fun inRanges :: "nat \<Rightarrow> (nat \<times> nat) list \<Rightarrow> bool" where
  "inRanges rx [] = False"
| "inRanges rx ((lo, hi) # rngs) =
     (if rx < lo then False else if rx \<le> hi then True else inRanges rx rngs)"

definition isSpace :: "rune \<Rightarrow> bool" where
  "isSpace r = (if r \<ge> 2 ^ 16 then False else inRanges r space)"

text \<open>\<^verbatim>\<open>decimalDigits = "0123456789"\<close> and \<^verbatim>\<open>sign = "+-"\<close>.\<close>

definition isDigit :: "rune \<Rightarrow> bool" where
  "isDigit r = (48 \<le> r \<and> r \<le> 57)"

definition isSign :: "rune \<Rightarrow> bool" where
  "isSign r = (r = 43 \<or> r = 45)"

text \<open>
  \<^verbatim>\<open>hugeWid = 1 << 30\<close>: \<^verbatim>\<open>ss.ReadRune\<close> reports end of input once \<^verbatim>\<open>count\<close> has
  reached \<^verbatim>\<open>argLimit\<close>, which stays at \<^verbatim>\<open>hugeWid\<close> for verbs without a width. As
  \<^verbatim>\<open>count\<close> is the number of runes consumed, the scanner sees exactly the
  first \<^verbatim>\<open>hugeWid\<close> runes of its input.
\<close>

definition hugeWid :: nat where
  "hugeWid = 2 ^ 30"

definition readable :: "rune list \<Rightarrow> rune list" where
  "readable str = take hugeWid str"

text \<open>
  \<^verbatim>\<open>SkipSpace\<close> with \<^verbatim>\<open>nlIsSpace = false\<close> (the setting of Sscanf): spaces are
  consumed, a newline is an error, anything else is left unread. (The
  carriage-return test of the source only looks ahead; a following newline
  is then met by the next iteration.)
\<close>

fun SkipSpace :: "rune list \<Rightarrow> scanError + rune list" where
  "SkipSpace [] = Inr []"
| "SkipSpace (r # rs) =
     (if r = newline then Inl ErrUnexpectedNewline
      else if \<not> isSpace r then Inr (r # rs)
      else SkipSpace rs)"

text \<open>\<^verbatim>\<open>notEOF\<close> panics with \<^verbatim>\<open>io.EOF\<close> when no rune is left.\<close>

definition notEOF :: "rune list \<Rightarrow> scanError + rune list" where
  "notEOF rs = (if rs = [] then Inl ErrEOF else Inr rs)"

text \<open>
  \<^verbatim>\<open>accept(sign)\<close> moves at most one sign into the token buffer;
  \<^verbatim>\<open>scanNumber(digits, false)\<close> requires one digit and then takes all that
  follow.
\<close>

definition acceptSign :: "rune list \<Rightarrow> rune list \<times> rune list" where
  "acceptSign rs = (case rs of [] \<Rightarrow> ([], [])
                    | r # rs' \<Rightarrow> if isSign r then ([r], rs') else ([], r # rs'))"

definition scanNumber :: "rune list \<Rightarrow> scanError + (rune list \<times> rune list)" where
  "scanNumber rs =
     bindE (notEOF rs) (\<lambda>rs.
       if \<not> isDigit (hd rs) then Inl ErrExpectedInteger
       else Inr (takeWhile isDigit rs, dropWhile isDigit rs))"

text \<open>
  \<^verbatim>\<open>strconv.ParseInt(tok, 10, 64)\<close> on a token made of an optional sign and at
  least one decimal digit: the value, or a range error when it does not fit
  64 bits.
\<close>

definition digitsVal :: "rune list \<Rightarrow> int" where
  "digitsVal ds = foldl (\<lambda>n d. n * 10 + (int d - 48)) 0 ds"

definition tokenVal :: "rune list \<Rightarrow> rune list \<Rightarrow> int" where
  "tokenVal sg ds = (if sg = [45] then - digitsVal ds else digitsVal ds)"

definition ParseInt :: "rune list \<Rightarrow> rune list \<Rightarrow> scanError + int" where
  "ParseInt sg ds =
     (let i = tokenVal sg ds
      in if i < - (2 ^ 63) \<or> 2 ^ 63 \<le> i then Inl ErrRange else Inr i)"

text \<open>
  \<^verbatim>\<open>intBits\<close> is the width of Go's \<^verbatim>\<open>int\<close>: 64 on the amd64 and arm64 hosts
  the compiler is built for. \<^verbatim>\<open>scanInt\<close> rejects a value that changes when cut
  to that width.
\<close>

definition intBits :: nat where
  "intBits = 64"

definition fitsInt :: "int \<Rightarrow> bool" where
  "fitsInt i = (- (2 ^ (intBits - 1)) \<le> i \<and> i < 2 ^ (intBits - 1))"

definition scanInt :: "rune list \<Rightarrow> scanError + (int \<times> rune list)" where
  "scanInt rs =
     bindE (SkipSpace rs) (\<lambda>rs.
     bindE (notEOF rs) (\<lambda>rs.
       let (sg, rs) = acceptSign rs
       in bindE (scanNumber rs) (\<lambda>(ds, rs).
          bindE (ParseInt sg ds) (\<lambda>i.
            if \<not> fitsInt i then Inl ErrIntegerOverflow else Inr (i, rs)))))"

text \<open>
  \<^verbatim>\<open>convertString\<close> for the verb \<^verbatim>\<open>%s\<close>: skip space, require input, and return
  the next word, \<^verbatim>\<open>token(true, notSpace)\<close>.
\<close>

definition token :: "rune list \<Rightarrow> scanError + (rune list \<times> rune list)" where
  "token rs =
     bindE (SkipSpace rs) (\<lambda>rs.
       Inr (takeWhile (\<lambda>r. \<not> isSpace r) rs, dropWhile (\<lambda>r. \<not> isSpace r) rs))"

definition convertString :: "rune list \<Rightarrow> scanError + (rune list \<times> rune list)" where
  "convertString rs =
     bindE (SkipSpace rs) (\<lambda>rs.
     bindE (notEOF rs) (\<lambda>rs. token rs))"

text \<open>
  \<^verbatim>\<open>advance\<close> on a literal rune of the format (\<^verbatim>\<open>mustReadRune\<close>, then the
  comparison), and on a single space of the format that follows no newline:
  the input must be at its end or continue with a space other than a
  newline, and all such spaces are consumed.
\<close>

definition literal :: "rune \<Rightarrow> rune list \<Rightarrow> scanError + rune list" where
  "literal fmtc rs =
     (case rs of [] \<Rightarrow> Inl ErrUnexpectedEOF
      | inputc # rs' \<Rightarrow> if fmtc \<noteq> inputc then Inl ErrInputDoesNotMatchFormat else Inr rs')"

fun literals :: "rune list \<Rightarrow> rune list \<Rightarrow> scanError + rune list" where
  "literals [] rs = Inr rs"
| "literals (fmtc # fmt) rs = bindE (literal fmtc rs) (literals fmt)"

definition formatSpace :: "rune list \<Rightarrow> scanError + rune list" where
  "formatSpace rs =
     (case rs of [] \<Rightarrow> Inr []
      | inputc # rs' \<Rightarrow>
          if \<not> isSpace inputc then Inl ErrExpectedSpace
          else if inputc = newline then Inl ErrNewlineInInput
          else Inr (dropWhile (\<lambda>r. isSpace r \<and> r \<noteq> newline) rs'))"

text \<open>
  \<^verbatim>\<open>doScanf\<close> unfolded for the three formats of the program. Before every
  verb it calls \<^verbatim>\<open>SkipSpace\<close> itself; input left after the last verb is not
  looked at. On failure Go has already stored the operands scanned so far;
  the callers below overwrite or discard them, so only the error is kept.
\<close>

definition verbInt :: "rune list \<Rightarrow> scanError + (int \<times> rune list)" where
  "verbInt rs = bindE (SkipSpace rs) scanInt"

definition verbString :: "rune list \<Rightarrow> scanError + (rune list \<times> rune list)" where
  "verbString rs = bindE (SkipSpace rs) convertString"

definition Sscanf_d_d_s :: "rune list \<Rightarrow> scanError + (int \<times> int \<times> rune list)" where
  \<comment> \<open>\<^verbatim>\<open>fmt.Sscanf(str, "%d:[%d]%s", &a, &b, &c)\<close>\<close>
  "Sscanf_d_d_s str =
     bindE (verbInt (readable str)) (\<lambda>(a, rs).
     bindE (literals (runes '':['') rs) (\<lambda>rs.
     bindE (verbInt rs) (\<lambda>(b, rs).
     bindE (literals (runes '']'') rs) (\<lambda>rs.
     bindE (verbString rs) (\<lambda>(c, rs). Inr (a, b, c))))))"

definition Sscanf_d_s :: "rune list \<Rightarrow> scanError + (int \<times> rune list)" where
  \<comment> \<open>\<^verbatim>\<open>fmt.Sscanf(str, "%d:%s", &a, &c)\<close>\<close>
  "Sscanf_d_s str =
     bindE (verbInt (readable str)) (\<lambda>(a, rs).
     bindE (literals (runes '':'') rs) (\<lambda>rs.
     bindE (verbString rs) (\<lambda>(c, rs). Inr (a, c))))"

definition Sscanf_LocalSize :: "rune list \<Rightarrow> scanError + (int \<times> int \<times> int)" where
  \<comment> \<open>\<^verbatim>\<open>fmt.Sscanf(str, "LocalSize %d %d %d", &x, &y, &z)\<close>\<close>
  "Sscanf_LocalSize str =
     bindE (literals (runes ''LocalSize'') (readable str)) (\<lambda>rs.
     bindE (formatSpace rs) (\<lambda>rs.
     bindE (verbInt rs) (\<lambda>(x, rs).
     bindE (formatSpace rs) (\<lambda>rs.
     bindE (verbInt rs) (\<lambda>(y, rs).
     bindE (formatSpace rs) (\<lambda>rs.
     bindE (verbInt rs) (\<lambda>(z, rs). Inr (x, y, z))))))))"

subsection \<open>Package strings\<close>

text \<open>\<^verbatim>\<open>strings.Split(s, sep)\<close> for a separator of one rune.\<close>

fun Split :: "rune list \<Rightarrow> rune \<Rightarrow> rune list list" where
  "Split [] sep = [[]]"
| "Split (c # cs) sep =
     (if c = sep then [] # Split cs sep
      else (case Split cs sep of [] \<Rightarrow> [[c]] | x # xs \<Rightarrow> (c # x) # xs))"

text \<open>\<^verbatim>\<open>strings.HasPrefix\<close> and \<^verbatim>\<open>strings.Index\<close> (\<open>None\<close> for \<^verbatim>\<open>-1\<close>).\<close>

definition HasPrefix :: "'a list \<Rightarrow> 'a list \<Rightarrow> bool" where
  "HasPrefix s pre = (take (length pre) s = pre)"

fun Index :: "'a list \<Rightarrow> 'a list \<Rightarrow> nat option" where
  "Index [] substr = (if substr = [] then Some 0 else None)"
| "Index (c # cs) substr =
     (if HasPrefix (c # cs) substr then Some 0 else map_option Suc (Index cs substr))"

subsection \<open>Descriptor set layouts\<close>

datatype descriptorType = descriptorTypeBuffer | descriptorTypeImage

record descriptor =
  binding :: int
  type' :: descriptorType
  count :: int

datatype parseError =
    ScanError scanError
  | UnknownDescriptorType "rune list"

text \<open>
  The body of the loop of \<^verbatim>\<open>parseDescriptorSetLayout\<close> for one element of the
  split: the format with a count first, then \<^verbatim>\<open>desc.count = 1\<close> and the format
  without; the error returned is that of the second attempt.
\<close>

definition scanDescriptor :: "rune list \<Rightarrow> parseError + (int \<times> int \<times> rune list)" where
  "scanDescriptor def =
     (case Sscanf_d_d_s def of
        Inr (b, c, typeName) \<Rightarrow> Inr (b, c, typeName)
      | Inl _ \<Rightarrow>
          (case Sscanf_d_s def of
             Inl err \<Rightarrow> Inl (ScanError err)
           | Inr (b, typeName) \<Rightarrow> Inr (b, 1, typeName)))"

definition parseDescriptor :: "rune list \<Rightarrow> parseError + descriptor" where
  "parseDescriptor def =
     bindE (scanDescriptor def) (\<lambda>(b, c, typeName).
       if typeName = runes ''buffer'' then
         Inr \<lparr>binding = b, type' = descriptorTypeBuffer, count = c\<rparr>
       else if typeName = runes ''image'' then
         Inr \<lparr>binding = b, type' = descriptorTypeImage, count = c\<rparr>
       else Inl (UnknownDescriptorType typeName))"

fun parseDescriptors :: "rune list list \<Rightarrow> descriptor list \<Rightarrow> parseError + descriptor list" where
  "parseDescriptors [] layout = Inr layout"
| "parseDescriptors (def # descriptors) layout =
     (case parseDescriptor def of
        Inl err \<Rightarrow> Inl err
      | Inr desc \<Rightarrow> parseDescriptors descriptors (layout @ [desc]))"

definition parseDescriptorSetLayout :: "rune list \<Rightarrow> parseError + descriptor list" where
  \<comment> \<open>\<^verbatim>\<open>strings.Split(layoutDef, ",")\<close>: 44 is the comma\<close>
  "parseDescriptorSetLayout layoutDef = parseDescriptors (Split layoutDef 44) []"

text \<open>
  Notions for the statements about the parser. What the scanner accepts for
  the two formats, written as a decomposition of the token: \<open>blanks\<close> are
  spaces other than newline, a \<open>signedDecimal\<close> is an optional sign and decimal
  digits whose value fits 64 bits, a \<open>kindWord\<close> is a non-empty run without
  spaces, and what follows the word is \<open>ignored\<close> (it is empty or starts
  with a space). \<open>tokenYields\<close> relates a token to the descriptor read from
  it.
\<close>

definition blanks :: "rune list \<Rightarrow> bool" where
  "blanks sp = (\<forall>r\<in>set sp. isSpace r \<and> r \<noteq> newline)"

definition signedDecimal :: "rune list \<Rightarrow> int \<Rightarrow> bool" where
  "signedDecimal n v =
     (\<exists>sg ds. n = sg @ ds \<and> (sg = [] \<or> sg = runes ''+'' \<or> sg = runes ''-'')
        \<and> ds \<noteq> [] \<and> (\<forall>d\<in>set ds. isDigit d)
        \<and> v = tokenVal sg ds \<and> - (2 ^ 63) \<le> v \<and> v < 2 ^ 63)"

definition kindWord :: "rune list \<Rightarrow> bool" where
  "kindWord k = (k \<noteq> [] \<and> (\<forall>r\<in>set k. \<not> isSpace r))"

definition ignored :: "rune list \<Rightarrow> bool" where
  "ignored rest = (rest = [] \<or> isSpace (hd rest))"

definition countForm :: "rune list \<Rightarrow> int \<Rightarrow> int \<Rightarrow> rune list \<Rightarrow> bool" where
  "countForm str b c k =
     (\<exists>sp1 n1 sp2 n2 sp3 rest.
        str = sp1 @ n1 @ runes '':['' @ sp2 @ n2 @ runes '']'' @ sp3 @ k @ rest
        \<and> blanks sp1 \<and> signedDecimal n1 b \<and> blanks sp2 \<and> signedDecimal n2 c \<and> blanks sp3
        \<and> kindWord k \<and> ignored rest)"

definition plainForm :: "rune list \<Rightarrow> int \<Rightarrow> rune list \<Rightarrow> bool" where
  "plainForm str b k =
     (\<exists>sp1 n1 sp2 rest.
        str = sp1 @ n1 @ runes '':'' @ sp2 @ k @ rest
        \<and> blanks sp1 \<and> signedDecimal n1 b \<and> blanks sp2 \<and> kindWord k \<and> ignored rest)"

definition kindName :: "descriptorType \<Rightarrow> rune list" where
  "kindName t = (case t of descriptorTypeBuffer \<Rightarrow> runes ''buffer''
                 | descriptorTypeImage \<Rightarrow> runes ''image'')"

definition tokenYields :: "rune list \<Rightarrow> descriptor \<Rightarrow> bool" where
  "tokenYields tok d =
     (countForm (readable tok) (binding d) (count d) (kindName (type' d))
      \<or> (plainForm (readable tok) (binding d) (kindName (type' d)) \<and> count d = 1))"

text \<open>
  The token grammar as the specification words it: \<^verbatim>\<open>binding:[count]kind\<close> or
  \<^verbatim>\<open>binding:kind\<close>, binding and count written in decimal digits, kind
  \<^verbatim>\<open>buffer\<close> or \<^verbatim>\<open>image\<close>, and nothing else in the token.
\<close>

definition grammarKind :: "rune list \<Rightarrow> bool" where
  "grammarKind k = (k = runes ''buffer'' \<or> k = runes ''image'')"

definition grammarCount :: "rune list \<Rightarrow> bool" where
  "grammarCount r =
     (take 1 r = runes ''[''
      \<and> takeWhile isDigit (drop 1 r) \<noteq> []
      \<and> take 1 (dropWhile isDigit (drop 1 r)) = runes '']''
      \<and> grammarKind (drop 1 (dropWhile isDigit (drop 1 r))))"

definition grammarToken :: "rune list \<Rightarrow> bool" where
  "grammarToken tok =
     (takeWhile isDigit tok \<noteq> []
      \<and> take 1 (dropWhile isDigit tok) = runes '':''
      \<and> (grammarKind (drop 1 (dropWhile isDigit tok))
         \<or> grammarCount (drop 1 (dropWhile isDigit tok))))"

subsection \<open>Program parameters from the disassembly\<close>

record program =
  hasControlBarriers :: bool
  workgroupSize :: "int \<times> int \<times> int"
  memorySize :: int

datatype paramsError =
    RunError
  | UnknownExecutionMode "rune list"
  | ScanFailed scanError

text \<open>
  \<^verbatim>\<open>bytes.Buffer.ReadString(delim)\<close>: the line up to and including the first
  delimiter and the buffer behind it; when the buffer holds no delimiter,
  all of it together with the error \<^verbatim>\<open>io.EOF\<close> (the third component).
\<close>

definition ReadString :: "rune list \<Rightarrow> rune \<Rightarrow> rune list \<times> rune list \<times> bool" where
  "ReadString buf delim =
     (if delim \<in> set buf
      then (takeWhile (\<lambda>r. r \<noteq> delim) buf @ [delim], tl (dropWhile (\<lambda>r. r \<noteq> delim) buf), False)
      else (buf, [], True))"

text \<open>
  The \<^verbatim>\<open>switch\<close> of \<^verbatim>\<open>parseProgramParams\<close> on one line. The first case wins: a
  line that starts with \<^verbatim>\<open>OpExecutionMode\<close> is never searched for
  \<^verbatim>\<open>OpControlBarrier\<close>.
\<close>

definition scanLine :: "rune list \<Rightarrow> program \<Rightarrow> paramsError + program" where
  "scanLine line p =
     (if HasPrefix line (runes ''OpExecutionMode'') then
        (case Index line (runes ''LocalSize '') of
           None \<Rightarrow> Inl (UnknownExecutionMode line)
         | Some i \<Rightarrow>
             (case Sscanf_LocalSize (drop i line) of
                Inl err \<Rightarrow> Inl (ScanFailed err)
              | Inr s \<Rightarrow> Inr (p\<lparr>workgroupSize := s\<rparr>)))
      else if Index line (runes ''OpControlBarrier'') \<noteq> None then
        Inr (p\<lparr>hasControlBarriers := True\<rparr>)
      else Inr p)"

text \<open>
  The \<^verbatim>\<open>for\<close> loop: a read that ends in \<^verbatim>\<open>io.EOF\<close> leaves the loop, and the
  text it returned (a last line without newline) is dropped. A
  \<^verbatim>\<open>bytes.Buffer\<close> returns no other error.
\<close>

function scanLines :: "rune list \<Rightarrow> program \<Rightarrow> paramsError + program" where
  "scanLines stdout p =
     (let (line, rest, eof) = ReadString stdout newline
      in if eof then Inr p
         else (case scanLine line p of
                 Inl err \<Rightarrow> Inl err
               | Inr p' \<Rightarrow> scanLines rest p'))"
  by pat_completeness auto

lemma ReadString_shorter:
  "ReadString buf delim = (line, rest, False) \<Longrightarrow> length rest < length buf"
proof -
  assume rd: "ReadString buf delim = (line, rest, False)"
  then have mem: "delim \<in> set buf" and rest: "rest = tl (dropWhile (\<lambda>r. r \<noteq> delim) buf)"
    by (auto simp: ReadString_def split: if_splits)
  from mem have "dropWhile (\<lambda>r. r \<noteq> delim) buf \<noteq> []"
    by (simp add: dropWhile_eq_Nil_conv)
  then have "length (tl (dropWhile (\<lambda>r. r \<noteq> delim) buf)) < length (dropWhile (\<lambda>r. r \<noteq> delim) buf)"
    by (cases "dropWhile (\<lambda>r. r \<noteq> delim) buf") auto
  also have "\<dots> \<le> length buf"
    by (rule length_dropWhile_le)
  finally show ?thesis using rest by simp
qed

termination scanLines
proof (relation "measure (\<lambda>(stdout, p). length stdout)")
  show "wf (measure (\<lambda>(stdout, p). length stdout))" by simp
next
  fix stdout :: "rune list" and p :: program and x line y rest eof p'
  assume "x = ReadString stdout newline" "(line, y) = x" "(rest, eof) = y" "\<not> eof"
  then have "ReadString stdout newline = (line, rest, False)" by simp
  then show "((rest, p'), (stdout, p)) \<in> measure (\<lambda>(stdout, p). length stdout)"
    using ReadString_shorter by simp
qed

text \<open>
  \<^verbatim>\<open>spirv-dis\<close> is an external program: \<open>spirv_dis\<close> gives, for the SPIR-V
  binary, the text it writes to standard output, or \<open>None\<close> when
  \<^verbatim>\<open>disassemble.Run()\<close> fails. On an error Go returns the partly filled
  \<^verbatim>\<open>p\<close> beside it; \<^verbatim>\<open>main\<close> exits without using it, and the model keeps
  the error only.
\<close>

definition parseProgramParams :: "('spirv \<Rightarrow> rune list option) \<Rightarrow> 'spirv \<Rightarrow> paramsError + program" where
  "parseProgramParams spirv_dis spirv =
     (let p = \<lparr>hasControlBarriers = False, workgroupSize = (0, 0, 0), memorySize = 0\<rparr>;
          p = p\<lparr>memorySize := 100000\<rparr>
      in case spirv_dis spirv of
           None \<Rightarrow> Inl RunError
         | Some stdout \<Rightarrow> scanLines stdout p)"

text \<open>
  Notions for the statements about \<^verbatim>\<open>parseProgramParams\<close>: the lines of a
  text that end in a newline (each with its newline), those among them
  that the first case of the \<^verbatim>\<open>switch\<close> takes, the three integers the program
  scans from such a line, and whether a line contains the text
  \<^verbatim>\<open>OpControlBarrier\<close>. \<open>scanAll\<close> is the loop run over a list of lines.
\<close>

declare scanLines.simps [simp del]

fun linesAcc :: "rune list \<Rightarrow> rune list \<Rightarrow> rune list list" where
  "linesAcc cur [] = []"
| "linesAcc cur (r # rs) =
     (if r = newline then (cur @ [r]) # linesAcc [] rs else linesAcc (cur @ [r]) rs)"

definition terminatedLines :: "rune list \<Rightarrow> rune list list" where
  "terminatedLines buf = linesAcc [] buf"

definition isExecutionMode :: "rune list \<Rightarrow> bool" where
  "isExecutionMode line = HasPrefix line (runes ''OpExecutionMode'')"

definition executionModeLines :: "rune list \<Rightarrow> rune list list" where
  "executionModeLines buf = filter isExecutionMode (terminatedLines buf)"

definition localSize :: "rune list \<Rightarrow> (int \<times> int \<times> int) option" where
  "localSize line =
     (case Index line (runes ''LocalSize '') of
        None \<Rightarrow> None
      | Some i \<Rightarrow> (case Sscanf_LocalSize (drop i line) of Inl err \<Rightarrow> None | Inr s \<Rightarrow> Some s))"

definition mentionsBarrier :: "rune list \<Rightarrow> bool" where
  "mentionsBarrier line = (Index line (runes ''OpControlBarrier'') \<noteq> None)"

fun scanAll :: "rune list list \<Rightarrow> program \<Rightarrow> paramsError + program" where
  "scanAll [] p = Inr p"
| "scanAll (line # lines) p =
     (case scanLine line p of Inl err \<Rightarrow> Inl err | Inr p' \<Rightarrow> scanAll lines p')"

text \<open>
  A line of the disassembly that is an \<^verbatim>\<open>OpControlBarrier\<close> instruction:
  \<^verbatim>\<open>spirv-dis --no-indent\<close> starts the line of an instruction without result
  with its opcode. \<open>barrierInstructions\<close> are those among all lines of a
  text.
\<close>

definition barrierInstruction :: "rune list \<Rightarrow> bool" where
  "barrierInstruction line = HasPrefix line (runes ''OpControlBarrier'')"

definition barrierInstructions :: "rune list \<Rightarrow> rune list list" where
  "barrierInstructions stdout = filter barrierInstruction (Split stdout newline)"

subsection \<open>Emitting sources\<close>


definition nl :: string where
  "nl = [CHR 0x0A]"






























subsection \<open>File names and symbol renaming in main\<close>

text \<open>\<^verbatim>\<open>filepath.Base\<close> and \<^verbatim>\<open>filepath.Ext\<close> with the separator of Linux.\<close>

definition isPathSeparator :: "char \<Rightarrow> bool" where
  "isPathSeparator c = (c = CHR ''/'')"

definition Base :: "string \<Rightarrow> string" where
  "Base path =
     (if path = [] then ''.''
      else let path = rev (dropWhile isPathSeparator (rev path));
               path = rev (takeWhile (\<lambda>c. \<not> isPathSeparator c) (rev path))
           in if path = [] then ''/'' else path)"

definition Ext :: "string \<Rightarrow> string" where
  "Ext path =
     (let elem = takeWhile (\<lambda>c. \<not> isPathSeparator c) (rev path)
      in if CHR ''.'' \<in> set elem
         then CHR ''.'' # rev (takeWhile (\<lambda>c. c \<noteq> CHR ''.'') elem)
         else [])"

definition programName :: "string \<Rightarrow> string" where
  "programName file =
     (let name = Base file;
          name = take (length name - length (Ext name)) name
      in name)"

definition sysoName :: "string \<Rightarrow> string \<Rightarrow> string" where
  \<comment> \<open>\<^verbatim>\<open>fmt.Sprintf("%s_linux_%s.syso", name, *arch)\<close>\<close>
  "sysoName name arch = name @ ''_linux_'' @ arch @ ''.syso''"

definition symbols :: "string list" where
  "symbols =
     [''coroutine_begin'',
      ''coroutine_await'',
      ''coroutine_destroy'',
      ''coroutine_begin.resume'',
      ''coroutine_begin.destroy'',
      ''coroutine_begin.cleanup'']"

definition renameArgs :: "string \<Rightarrow> string \<Rightarrow> string list" where
  "renameArgs name syso =
     (let renames = [];
          renames = foldl (\<lambda>renames sym.
                      let rename = sym @ ''='' @ name @ ''_'' @ sym
                      in renames @ [''--redefine-sym'', rename]) renames symbols;
          renames = renames @ [syso]
      in renames)"

section \<open>Auxiliary facts\<close>

subsection \<open>Sequencing and evaluation\<close>

lemma bindE_Inr: "bindE m f = Inr y \<longleftrightarrow> (\<exists>x. m = Inr x \<and> f x = Inr y)"
  by (cases m) (simp_all add: bindE_def)

lemma parseDescriptors_length:
  "parseDescriptors toks acc = Inr ds \<Longrightarrow> length ds = length acc + length toks"
  by (induction toks arbitrary: acc) (auto split: sum.splits)

lemmas scan_eval = parseDescriptorSetLayout_def parseDescriptor_def scanDescriptor_def Sscanf_d_d_s_def Sscanf_d_s_def
   verbInt_def verbString_def scanInt_def convertString_def token_def literal_def bindE_def readable_def hugeWid_def notEOF_def
   acceptSign_def scanNumber_def ParseInt_def tokenVal_def digitsVal_def fitsInt_def intBits_def isSpace_def space_def isDigit_def isSign_def newline_def

subsection \<open>The primitives of the scanner\<close>

lemma isSpace_newline: "isSpace newline"
  by (simp add: isSpace_def space_def newline_def)

lemma isDigit_not_space: "isDigit r \<Longrightarrow> \<not> isSpace r"
  by (simp add: isSpace_def space_def isDigit_def)

lemma isSign_not_space: "isSign r \<Longrightarrow> \<not> isSpace r"
  by (auto simp: isSpace_def space_def isSign_def)

lemma isDigit_not_sign: "isDigit r \<Longrightarrow> \<not> isSign r"
  by (auto simp: isDigit_def isSign_def)

lemma SkipSpace_complete:
  "blanks sp \<Longrightarrow> rs = [] \<or> \<not> isSpace (hd rs) \<Longrightarrow> SkipSpace (sp @ rs) = Inr rs"
proof (induction sp)
  case Nil
  then show ?case using isSpace_newline by (cases rs) auto
next
  case (Cons r sp)
  then show ?case by (simp add: blanks_def)
qed

lemma SkipSpace_sound:
  "SkipSpace rs = Inr rs' \<Longrightarrow> \<exists>sp. rs = sp @ rs' \<and> blanks sp \<and> (rs' = [] \<or> \<not> isSpace (hd rs'))"
proof (induction rs)
  case Nil
  then show ?case by (simp add: blanks_def)
next
  case (Cons r rs)
  show ?case
  proof (cases "r = newline")
    case True
    with Cons.prems show ?thesis by simp
  next
    case nl: False
    show ?thesis
    proof (cases "isSpace r")
      case False
      with nl Cons.prems have "rs' = r # rs" by simp
      with False show ?thesis by (intro exI[of _ "[]"]) (simp add: blanks_def)
    next
      case True
      with nl Cons.prems have "SkipSpace rs = Inr rs'" by simp
      from Cons.IH[OF this] obtain sp where
        sp: "rs = sp @ rs'" "blanks sp" "rs' = [] \<or> \<not> isSpace (hd rs')" by blast
      with True nl show ?thesis by (intro exI[of _ "r # sp"]) (simp add: blanks_def)
    qed
  qed
qed

lemma SkipSpace_idem: "SkipSpace rs = Inr rs' \<Longrightarrow> SkipSpace rs' = Inr rs'"
proof -
  assume "SkipSpace rs = Inr rs'"
  from SkipSpace_sound[OF this] have "rs' = [] \<or> \<not> isSpace (hd rs')" by blast
  then show ?thesis using SkipSpace_complete[of "[]" rs'] by (simp add: blanks_def)
qed

lemma bindE_SkipSpace_twice:
  "bindE (SkipSpace rs) (\<lambda>rs1. bindE (SkipSpace rs1) g) = bindE (SkipSpace rs) g"
  by (cases "SkipSpace rs") (simp_all add: bindE_def SkipSpace_idem)

lemma verbInt_scanInt: "verbInt rs = scanInt rs"
  unfolding verbInt_def scanInt_def[abs_def] by (rule bindE_SkipSpace_twice)

lemma verbString_convertString: "verbString rs = convertString rs"
  unfolding verbString_def convertString_def[abs_def] by (rule bindE_SkipSpace_twice)

lemma run_then_stop:
  assumes "\<forall>x\<in>set xs. P x" and "ys = [] \<or> \<not> P (hd ys)"
  shows "takeWhile P (xs @ ys) = xs" and "dropWhile P (xs @ ys) = ys"
proof -
  from assms(2) have t: "takeWhile P ys = []" and d: "dropWhile P ys = ys"
    by (cases ys; auto)+
  from assms(1) show "takeWhile P (xs @ ys) = xs" by (simp add: takeWhile_append2 t)
  from assms(1) show "dropWhile P (xs @ ys) = ys" by (simp add: dropWhile_append2 d)
qed

lemma run_split:
  "xs = takeWhile P xs @ dropWhile P xs \<and> (\<forall>x\<in>set (takeWhile P xs). P x)
   \<and> (dropWhile P xs = [] \<or> \<not> P (hd (dropWhile P xs)))"
  using hd_dropWhile[of P xs] by (auto dest: set_takeWhileD)

lemma scanInt_complete:
  assumes sp: "blanks sp" and n: "signedDecimal n v" and stop: "rs' = [] \<or> \<not> isDigit (hd rs')"
  shows "scanInt (sp @ n @ rs') = Inr (v, rs')"
proof -
  from n obtain sg ds where
    nd: "n = sg @ ds" and sg: "sg = [] \<or> sg = runes ''+'' \<or> sg = runes ''-''"
    and ds: "ds \<noteq> []" "\<forall>d\<in>set ds. isDigit d"
    and v: "v = tokenVal sg ds" "- (2 ^ 63) \<le> v" "v < 2 ^ 63"
    unfolding signedDecimal_def by blast
  from ds obtain d ds' where dd: "ds = d # ds'" "isDigit d" by (cases ds) auto
  have first: "\<not> isSpace (hd (n @ rs'))"
    using sg dd nd isDigit_not_space[of d] isSign_not_space
    by (auto simp: isSign_def)
  have skip: "SkipSpace (sp @ n @ rs') = Inr (n @ rs')"
    using SkipSpace_complete[OF sp, of "n @ rs'"] first by simp
  have ne: "n @ rs' \<noteq> []" using nd ds by simp
  have acc: "acceptSign (n @ rs') = (sg, ds @ rs')"
    using sg dd nd isDigit_not_sign[of d] by (auto simp: acceptSign_def isSign_def)
  have num: "scanNumber (ds @ rs') = Inr (ds, rs')"
    using run_then_stop[OF ds(2) stop] dd
    by (simp add: scanNumber_def bindE_def notEOF_def)
  have par: "ParseInt sg ds = Inr v"
    using v by (simp add: ParseInt_def Let_def)
  have fit: "fitsInt v" using v by (simp add: fitsInt_def intBits_def)
  show ?thesis
    unfolding scanInt_def using skip ne acc num par fit
    by (simp add: bindE_def notEOF_def)
qed

lemma acceptSign_cases:
  "acceptSign rs = (sg, rs2) \<Longrightarrow>
     rs = sg @ rs2 \<and> (sg = [] \<or> sg = runes ''+'' \<or> sg = runes ''-'')"
  by (auto simp: acceptSign_def isSign_def split: list.splits if_splits)

lemma scanInt_sound:
  assumes "scanInt rs = Inr (v, rs')"
  shows "\<exists>sp n. rs = sp @ n @ rs' \<and> blanks sp \<and> signedDecimal n v \<and> (rs' = [] \<or> \<not> isDigit (hd rs'))"
proof -
  from assms obtain rs1 where s1: "SkipSpace rs = Inr rs1"
    and r1: "bindE (notEOF rs1) (\<lambda>rs. let (sg, rs) = acceptSign rs
       in bindE (scanNumber rs) (\<lambda>(ds, rs).
          bindE (ParseInt sg ds) (\<lambda>i.
            if \<not> fitsInt i then Inl ErrIntegerOverflow else Inr (i, rs)))) = Inr (v, rs')"
    unfolding scanInt_def by (auto simp: bindE_Inr)
  obtain sg rs2 where acc: "acceptSign rs1 = (sg, rs2)" by (cases "acceptSign rs1")
  from r1 acc obtain ds rs3 where num: "scanNumber rs2 = Inr (ds, rs3)"
    and r2: "bindE (ParseInt sg ds) (\<lambda>i.
            if \<not> fitsInt i then Inl ErrIntegerOverflow else Inr (i, rs3)) = Inr (v, rs')"
    by (auto simp: bindE_Inr notEOF_def split: if_splits)
  from r2 have par: "ParseInt sg ds = Inr v" and rs3: "rs3 = rs'"
    by (auto simp: bindE_Inr split: if_splits)
  from num have ne2: "rs2 \<noteq> []" and dig: "isDigit (hd rs2)"
    and ds: "ds = takeWhile isDigit rs2" and r3: "rs3 = dropWhile isDigit rs2"
    by (auto simp: scanNumber_def bindE_Inr notEOF_def split: if_splits)
  from ne2 dig have dsne: "ds \<noteq> []" unfolding ds by (cases rs2) auto
  from run_split[of rs2 isDigit] have split: "rs2 = ds @ rs3" "\<forall>d\<in>set ds. isDigit d"
    "rs3 = [] \<or> \<not> isDigit (hd rs3)"
    unfolding ds r3 by auto
  from par have v: "v = tokenVal sg ds" "- (2 ^ 63) \<le> v" "v < 2 ^ 63"
    by (auto simp: ParseInt_def Let_def split: if_splits)
  from acceptSign_cases[OF acc] have a: "rs1 = sg @ rs2"
    "sg = [] \<or> sg = runes ''+'' \<or> sg = runes ''-''" by auto
  from SkipSpace_sound[OF s1] obtain sp where sp: "rs = sp @ rs1" "blanks sp" by blast
  have "signedDecimal (sg @ ds) v"
    unfolding signedDecimal_def using a(2) dsne split(2) v by blast
  moreover have "rs = sp @ (sg @ ds) @ rs'" using sp(1) a(1) split(1) rs3 by simp
  ultimately show ?thesis using sp(2) split(3) rs3 by blast
qed

lemma literals_iff: "literals fmt rs = Inr rs' \<longleftrightarrow> rs = fmt @ rs'"
proof (induction fmt arbitrary: rs)
  case Nil
  then show ?case by auto
next
  case (Cons c fmt)
  show ?case
  proof (cases rs)
    case Nil
    then show ?thesis by (simp add: literal_def bindE_def)
  next
    case (Cons r rs0)
    then show ?thesis using Cons.IH[of rs0] by (simp add: literal_def bindE_def)
  qed
qed

lemma convertString_complete:
  assumes sp: "blanks sp" and k: "kindWord k" and rest: "ignored rest"
  shows "convertString (sp @ k @ rest) = Inr (k, rest)"
proof -
  from k obtain r k' where kk: "k = r # k'" "\<not> isSpace r" "\<forall>x\<in>set k. \<not> isSpace x"
    unfolding kindWord_def by (cases k) auto
  have skip: "SkipSpace (sp @ k @ rest) = Inr (k @ rest)"
    using SkipSpace_complete[OF sp, of "k @ rest"] kk by simp
  have skip2: "SkipSpace (k @ rest) = Inr (k @ rest)"
    using SkipSpace_idem[OF skip] .
  have stop: "rest = [] \<or> \<not> (\<not> isSpace (hd rest))" using rest by (simp add: ignored_def)
  have tk: "takeWhile (\<lambda>r. \<not> isSpace r) (k @ rest) = k"
    and dr: "dropWhile (\<lambda>r. \<not> isSpace r) (k @ rest) = rest"
    using run_then_stop[of k "\<lambda>r. \<not> isSpace r" rest, OF kk(3) stop] by auto
  show ?thesis
    unfolding convertString_def token_def using skip skip2 tk dr kk(1)
    by (simp add: bindE_def notEOF_def)
qed

lemma convertString_sound:
  assumes "convertString rs = Inr (k, rs')"
  shows "\<exists>sp. rs = sp @ k @ rs' \<and> blanks sp \<and> kindWord k \<and> ignored rs'"
proof -
  from assms obtain rs1 where s1: "SkipSpace rs = Inr rs1" and ne: "rs1 \<noteq> []"
    and tok: "token rs1 = Inr (k, rs')"
    unfolding convertString_def by (auto simp: bindE_Inr notEOF_def split: if_splits)
  from SkipSpace_idem[OF s1] tok have k: "k = takeWhile (\<lambda>r. \<not> isSpace r) rs1"
    and r: "rs' = dropWhile (\<lambda>r. \<not> isSpace r) rs1"
    by (auto simp: token_def bindE_def)
  from SkipSpace_sound[OF s1] ne obtain sp where sp: "rs = sp @ rs1" "blanks sp"
    "\<not> isSpace (hd rs1)" by blast
  from ne sp(3) have kne: "k \<noteq> []" unfolding k by (cases rs1) auto
  from run_split[of rs1 "\<lambda>r. \<not> isSpace r"] have "rs1 = k @ rs'" "\<forall>x\<in>set k. \<not> isSpace x"
    "rs' = [] \<or> isSpace (hd rs')" unfolding k r by auto
  with sp kne show ?thesis unfolding kindWord_def ignored_def by auto
qed


subsection \<open>The two formats of the layout and the loop over the tokens\<close>

lemma bindE_simps: "bindE (Inr x) f = f x" "bindE (Inl e) f = Inl e"
  by (simp_all add: bindE_def)

lemma colon_not_digit: "\<not> isDigit (hd (runes '':'' @ rs))" "\<not> isDigit (hd (runes '':['' @ rs))"
  "\<not> isDigit (hd (runes '']'' @ rs))"
  by (simp_all add: isDigit_def)

lemma Sscanf_d_s_iff: "Sscanf_d_s str = Inr (b, k) \<longleftrightarrow> plainForm (readable str) b k"
proof
  assume "Sscanf_d_s str = Inr (b, k)"
  then obtain rs1 rs2 rs3 where
    i: "scanInt (readable str) = Inr (b, rs1)" and l: "literals (runes '':'') rs1 = Inr rs2"
    and s: "convertString rs2 = Inr (k, rs3)"
    unfolding Sscanf_d_s_def verbInt_scanInt verbString_convertString
    by (auto simp: bindE_Inr)
  from scanInt_sound[OF i] obtain sp1 n1 where
    a: "readable str = sp1 @ n1 @ rs1" "blanks sp1" "signedDecimal n1 b" by blast
  from l have b: "rs1 = runes '':'' @ rs2" by (simp only: literals_iff)
  from convertString_sound[OF s] obtain sp2 where
    c: "rs2 = sp2 @ k @ rs3" "blanks sp2" "kindWord k" "ignored rs3" by blast
  have "readable str = sp1 @ n1 @ runes '':'' @ sp2 @ k @ rs3"
    using a(1) b c(1) by simp
  with a(2,3) c(2,3,4) show "plainForm (readable str) b k"
    unfolding plainForm_def by blast
next
  assume "plainForm (readable str) b k"
  then obtain sp1 n1 sp2 rest where
    f: "readable str = sp1 @ n1 @ runes '':'' @ sp2 @ k @ rest"
    and h: "blanks sp1" "signedDecimal n1 b" "blanks sp2" "kindWord k" "ignored rest"
    unfolding plainForm_def by blast
  have i: "scanInt (readable str) = Inr (b, runes '':'' @ sp2 @ k @ rest)"
    unfolding f using scanInt_complete[OF h(1,2), of "runes '':'' @ sp2 @ k @ rest"] colon_not_digit(1)
    by blast
  have l: "literals (runes '':'') (runes '':'' @ sp2 @ k @ rest) = Inr (sp2 @ k @ rest)"
    by (simp only: literals_iff)
  have s: "convertString (sp2 @ k @ rest) = Inr (k, rest)"
    by (rule convertString_complete[OF h(3,4,5)])
  show "Sscanf_d_s str = Inr (b, k)"
    by (simp only: Sscanf_d_s_def verbInt_scanInt verbString_convertString i l s bindE_simps prod.case)
qed

lemma Sscanf_d_d_s_iff: "Sscanf_d_d_s str = Inr (b, c, k) \<longleftrightarrow> countForm (readable str) b c k"
proof
  assume "Sscanf_d_d_s str = Inr (b, c, k)"
  then obtain rs1 rs2 rs3 rs4 rs5 where
    i: "scanInt (readable str) = Inr (b, rs1)" and l: "literals (runes '':['') rs1 = Inr rs2"
    and j: "scanInt rs2 = Inr (c, rs3)" and m: "literals (runes '']'') rs3 = Inr rs4"
    and s: "convertString rs4 = Inr (k, rs5)"
    unfolding Sscanf_d_d_s_def verbInt_scanInt verbString_convertString
    by (auto simp: bindE_Inr)
  from scanInt_sound[OF i] obtain sp1 n1 where
    a: "readable str = sp1 @ n1 @ rs1" "blanks sp1" "signedDecimal n1 b" by blast
  from l have b: "rs1 = runes '':['' @ rs2" by (simp only: literals_iff)
  from scanInt_sound[OF j] obtain sp2 n2 where
    c: "rs2 = sp2 @ n2 @ rs3" "blanks sp2" "signedDecimal n2 c" by blast
  from m have d: "rs3 = runes '']'' @ rs4" by (simp only: literals_iff)
  from convertString_sound[OF s] obtain sp3 where
    e: "rs4 = sp3 @ k @ rs5" "blanks sp3" "kindWord k" "ignored rs5" by blast
  have "readable str = sp1 @ n1 @ runes '':['' @ sp2 @ n2 @ runes '']'' @ sp3 @ k @ rs5"
    using a(1) b c(1) d e(1) by simp
  with a(2,3) c(2,3) e(2,3,4) show "countForm (readable str) b c k"
    unfolding countForm_def by blast
next
  assume "countForm (readable str) b c k"
  then obtain sp1 n1 sp2 n2 sp3 rest where
    f: "readable str = sp1 @ n1 @ runes '':['' @ sp2 @ n2 @ runes '']'' @ sp3 @ k @ rest"
    and h: "blanks sp1" "signedDecimal n1 b" "blanks sp2" "signedDecimal n2 c" "blanks sp3" "kindWord k" "ignored rest"
    unfolding countForm_def by blast
  have i: "scanInt (readable str) = Inr (b, runes '':['' @ sp2 @ n2 @ runes '']'' @ sp3 @ k @ rest)"
    unfolding f
    using scanInt_complete[OF h(1,2), of "runes '':['' @ sp2 @ n2 @ runes '']'' @ sp3 @ k @ rest"]
      colon_not_digit(2) by blast
  have l: "literals (runes '':['') (runes '':['' @ sp2 @ n2 @ runes '']'' @ sp3 @ k @ rest)
             = Inr (sp2 @ n2 @ runes '']'' @ sp3 @ k @ rest)"
    by (simp only: literals_iff)
  have j: "scanInt (sp2 @ n2 @ runes '']'' @ sp3 @ k @ rest) = Inr (c, runes '']'' @ sp3 @ k @ rest)"
    using scanInt_complete[OF h(3,4), of "runes '']'' @ sp3 @ k @ rest"] colon_not_digit(3) by blast
  have m: "literals (runes '']'') (runes '']'' @ sp3 @ k @ rest) = Inr (sp3 @ k @ rest)"
    by (simp only: literals_iff)
  have s: "convertString (sp3 @ k @ rest) = Inr (k, rest)"
    by (rule convertString_complete[OF h(5,6,7)])
  show "Sscanf_d_d_s str = Inr (b, c, k)"
    by (simp only: Sscanf_d_d_s_def verbInt_scanInt verbString_convertString i l j m s
          bindE_simps prod.case)
qed

text \<open>A token the first format accepts is read by the second with a kind that starts with a bracket.\<close>

lemma first_format_then_second:
  assumes "Sscanf_d_d_s str = Inr (b, c, k)"
  shows "\<exists>k'. Sscanf_d_s str = Inr (b, 91 # k')"
proof -
  from assms obtain rs1 rs2 where
    i: "scanInt (readable str) = Inr (b, rs1)" and l: "literals (runes '':['') rs1 = Inr rs2"
    unfolding Sscanf_d_d_s_def verbInt_scanInt by (auto simp: bindE_Inr)
  from l have "rs1 = runes '':['' @ rs2" by (simp only: literals_iff)
  then have r: "rs1 = runes '':'' @ 91 # rs2" by simp
  have l2: "literals (runes '':'') rs1 = Inr (91 # rs2)" unfolding r by (simp only: literals_iff)
  have ns: "\<not> isSpace 91" by (simp add: isSpace_def space_def)
  have "kindWord (91 # takeWhile (\<lambda>r. \<not> isSpace r) rs2)"
    using ns by (auto simp: kindWord_def dest: set_takeWhileD)
  moreover have "ignored (dropWhile (\<lambda>r. \<not> isSpace r) rs2)"
    using hd_dropWhile[of "\<lambda>r. \<not> isSpace r" rs2] by (auto simp: ignored_def)
  ultimately have "convertString ([] @ (91 # takeWhile (\<lambda>r. \<not> isSpace r) rs2) @ dropWhile (\<lambda>r. \<not> isSpace r) rs2)
      = Inr (91 # takeWhile (\<lambda>r. \<not> isSpace r) rs2, dropWhile (\<lambda>r. \<not> isSpace r) rs2)"
    by (intro convertString_complete) (simp_all add: blanks_def)
  then have s: "convertString (91 # rs2)
      = Inr (91 # takeWhile (\<lambda>r. \<not> isSpace r) rs2, dropWhile (\<lambda>r. \<not> isSpace r) rs2)"
    by simp
  show ?thesis
    by (simp only: Sscanf_d_s_def verbInt_scanInt verbString_convertString i l2 s
          bindE_simps prod.case) blast
qed

lemma kindName_no_bracket: "kindName t \<noteq> 91 # k'"
  by (cases t) (simp_all add: kindName_def)

lemma kindName_cases:
  "k = kindName t \<longleftrightarrow> (k = runes ''buffer'' \<and> t = descriptorTypeBuffer)
                       \<or> (k = runes ''image'' \<and> t = descriptorTypeImage)"
  by (cases t) (auto simp: kindName_def)

lemma parseDescriptor_scanned:
  "parseDescriptor tok = Inr d \<longleftrightarrow> scanDescriptor tok = Inr (binding d, count d, kindName (type' d))"
proof (cases "scanDescriptor tok")
  case (Inl e)
  then show ?thesis by (simp add: parseDescriptor_def bindE_def)
next
  case (Inr x)
  obtain b c k where x: "x = (b, c, k)" by (cases x)
  show ?thesis
    unfolding parseDescriptor_def Inr x
    by (cases d; cases "type' d") (auto simp: bindE_def kindName_def)
qed

lemma parseDescriptor_iff: "parseDescriptor tok = Inr d \<longleftrightarrow> tokenYields tok d"
proof -
  let ?b = "binding d" and ?c = "count d" and ?k = "kindName (type' d)"
  have "scanDescriptor tok = Inr (?b, ?c, ?k) \<longleftrightarrow>
          Sscanf_d_d_s tok = Inr (?b, ?c, ?k) \<or> (Sscanf_d_s tok = Inr (?b, ?k) \<and> ?c = 1)"
  proof (cases "Sscanf_d_d_s tok")
    case (Inl e)
    then show ?thesis
      by (cases "Sscanf_d_s tok") (auto simp: scanDescriptor_def)
  next
    case (Inr x)
    obtain b c k where x: "x = (b, c, k)" by (cases x)
    from first_format_then_second[OF Inr[unfolded x]] obtain k' where
      "Sscanf_d_s tok = Inr (b, 91 # k')" by blast
    then have "Sscanf_d_s tok \<noteq> Inr (?b, ?k)" using kindName_no_bracket[of "type' d" k'] by auto
    then show ?thesis by (simp add: scanDescriptor_def Inr x)
  qed
  then show ?thesis
    unfolding parseDescriptor_scanned tokenYields_def Sscanf_d_d_s_iff Sscanf_d_s_iff .
qed

lemma parseDescriptor_total:
  "(\<exists>err. parseDescriptor tok = Inl err) \<longleftrightarrow> \<not> (\<exists>d. parseDescriptor tok = Inr d)"
  by (cases "parseDescriptor tok") auto

lemma parseDescriptors_iff:
  "parseDescriptors toks acc = Inr ds \<longleftrightarrow>
     (\<exists>ds'. ds = acc @ ds' \<and> list_all2 (\<lambda>tok d. parseDescriptor tok = Inr d) toks ds')"
proof (induction toks arbitrary: acc)
  case Nil
  then show ?case by auto
next
  case (Cons tok toks)
  show ?case
  proof (cases "parseDescriptor tok")
    case (Inl e)
    then show ?thesis by (auto simp: list_all2_Cons1)
  next
    case (Inr d)
    then show ?thesis using Cons.IH[of "acc @ [d]"] by (auto simp: list_all2_Cons1)
  qed
qed

lemma parseDescriptors_fails_iff:
  "(\<exists>err. parseDescriptors toks acc = Inl err) \<longleftrightarrow> (\<exists>tok\<in>set toks. \<exists>err. parseDescriptor tok = Inl err)"
proof (induction toks arbitrary: acc)
  case Nil
  then show ?case by simp
next
  case (Cons tok toks)
  show ?case
  proof (cases "parseDescriptor tok")
    case (Inl e)
    then show ?thesis by auto
  next
    case (Inr d)
    then show ?thesis using Cons.IH[of "acc @ [d]"] by auto
  qed
qed

subsection \<open>Sizes and ranges\<close>

lemma Split_nonempty: "Split s sep \<noteq> []"
  by (induction s) (auto split: list.splits)

lemma scanInt_fits: "scanInt rs = Inr (i, rs') \<Longrightarrow> fitsInt i"
  unfolding scanInt_def
  by (cases "acceptSign (projr (notEOF (projr (SkipSpace rs))))")
     (auto simp: bindE_Inr split: if_splits)

lemma verbInt_fits: "verbInt rs = Inr (i, rs') \<Longrightarrow> fitsInt i"
  unfolding verbInt_def by (auto simp: bindE_Inr scanInt_fits)

lemma fitsInt_1: "fitsInt 1" by (simp add: fitsInt_def intBits_def)

lemma Sscanf_d_d_s_fits: "Sscanf_d_d_s def = Inr (b, c, t) \<Longrightarrow> fitsInt b \<and> fitsInt c"
  unfolding Sscanf_d_d_s_def
  by (auto simp: bindE_Inr split: prod.splits dest: verbInt_fits)

lemma Sscanf_d_s_fits: "Sscanf_d_s def = Inr (b, t) \<Longrightarrow> fitsInt b"
  unfolding Sscanf_d_s_def
  by (auto simp: bindE_Inr split: prod.splits dest: verbInt_fits)

lemma scanDescriptor_fits: "scanDescriptor def = Inr (b, c, t) \<Longrightarrow> fitsInt b \<and> fitsInt c"
  unfolding scanDescriptor_def
  by (auto simp: fitsInt_1 split: sum.splits prod.splits dest: Sscanf_d_d_s_fits Sscanf_d_s_fits)

lemma parseDescriptor_fits: "parseDescriptor def = Inr d \<Longrightarrow> fitsInt (binding d) \<and> fitsInt (count d)"
  unfolding parseDescriptor_def
  by (auto simp: bindE_Inr split: prod.splits if_splits dest: scanDescriptor_fits)

lemma parseDescriptors_fits:
  "parseDescriptors toks acc = Inr ds \<Longrightarrow> \<forall>d\<in>set acc. fitsInt (binding d) \<and> fitsInt (count d)
    \<Longrightarrow> \<forall>d\<in>set ds. fitsInt (binding d) \<and> fitsInt (count d)"
proof (induction toks arbitrary: acc)
  case Nil then show ?case by simp
next
  case (Cons tok toks)
  from Cons.prems(1) obtain d where d: "parseDescriptor tok = Inr d"
    and rest: "parseDescriptors toks (acc @ [d]) = Inr ds"
    by (auto split: sum.splits)
  have "\<forall>d\<in>set (acc @ [d]). fitsInt (binding d) \<and> fitsInt (count d)"
    using Cons.prems(2) parseDescriptor_fits[OF d] by auto
  from Cons.IH[OF rest this] show ?case .
qed

subsection \<open>File names\<close>

lemma Ext_suffix: "take (length p - length (Ext p)) p @ Ext p = p"
proof (cases "CHR ''.'' \<in> set (takeWhile (\<lambda>c. \<not> isPathSeparator c) (rev p))")
  case False
  then show ?thesis by (simp add: Ext_def)
next
  case True
  define elem where "elem = takeWhile (\<lambda>c. \<not> isPathSeparator c) (rev p)"
  define a where "a = takeWhile (\<lambda>c. c \<noteq> CHR ''.'') elem"
  define b where "b = dropWhile (\<lambda>c. c \<noteq> CHR ''.'') elem"
  define r where "r = dropWhile (\<lambda>c. \<not> isPathSeparator c) (rev p)"
  from True have "b \<noteq> []" unfolding b_def elem_def by (simp add: dropWhile_eq_Nil_conv)
  moreover have "hd b = CHR ''.''" using \<open>b \<noteq> []\<close> hd_dropWhile[of "\<lambda>c. c \<noteq> CHR ''.''" elem] unfolding b_def by auto
  ultimately obtain b' where b: "b = CHR ''.'' # b'" by (cases b) auto
  have "rev p = elem @ r" unfolding elem_def r_def by simp
  also have "elem = a @ b" unfolding a_def b_def by simp
  finally have "rev p = a @ CHR ''.'' # b' @ r" using b by simp
  then have "rev (rev p) = rev (a @ CHR ''.'' # b' @ r)" by simp
  then have p: "p = (rev r @ rev b') @ (CHR ''.'' # rev a)" by simp
  have e: "Ext p = CHR ''.'' # rev a" using True unfolding Ext_def a_def elem_def by (simp add: Let_def)
  show ?thesis unfolding e by (subst (1 2 3) p) simp
qed

subsection \<open>The loop over the lines of the disassembly\<close>

lemma linesAcc_unfold:
  "linesAcc cur buf =
     (if newline \<in> set buf
      then (cur @ takeWhile (\<lambda>r. r \<noteq> newline) buf @ [newline])
             # linesAcc [] (tl (dropWhile (\<lambda>r. r \<noteq> newline) buf))
      else [])"
  by (induction buf arbitrary: cur) auto

lemma scanLines_scanAll: "scanLines buf p = scanAll (terminatedLines buf) p"
proof (induction buf p rule: scanLines.induct)
  case (1 stdout p)
  show ?case
  proof (cases "newline \<in> set stdout")
    case False
    then show ?thesis
      by (subst scanLines.simps) (simp add: ReadString_def terminatedLines_def linesAcc_unfold[of "[]" stdout])
  next
    case True
    define line where "line = takeWhile (\<lambda>r. r \<noteq> newline) stdout @ [newline]"
    define rest where "rest = tl (dropWhile (\<lambda>r. r \<noteq> newline) stdout)"
    have rd: "ReadString stdout newline = (line, rest, False)"
      using True by (simp add: ReadString_def line_def rest_def)
    have tl: "terminatedLines stdout = line # terminatedLines rest"
      using True by (simp add: terminatedLines_def linesAcc_unfold[of "[]" stdout] line_def rest_def)
    show ?thesis
    proof (cases "scanLine line p")
      case (Inl e)
      then show ?thesis by (subst scanLines.simps) (simp add: rd tl)
    next
      case (Inr p')
      have "scanLines rest p' = scanAll (terminatedLines rest) p'"
        using "1.IH"[OF rd[symmetric] refl refl _ Inr] by simp
      then show ?thesis using Inr by (subst scanLines.simps) (simp add: rd tl)
    qed
  qed
qed

lemma scanLine_executionMode:
  "isExecutionMode line \<Longrightarrow>
     scanLine line p = (case localSize line of
                          None \<Rightarrow> scanLine line p
                        | Some s \<Rightarrow> Inr (p\<lparr>workgroupSize := s\<rparr>))"
  by (auto simp: scanLine_def isExecutionMode_def localSize_def split: option.splits sum.splits)

lemma scanLine_executionMode_fails:
  "isExecutionMode line \<Longrightarrow> localSize line = None \<Longrightarrow> \<exists>err. scanLine line p = Inl err"
  by (auto simp: scanLine_def isExecutionMode_def localSize_def split: option.splits sum.splits)

lemma scanLine_executionMode_ok:
  "isExecutionMode line \<Longrightarrow> localSize line = Some s \<Longrightarrow> scanLine line p = Inr (p\<lparr>workgroupSize := s\<rparr>)"
  by (auto simp: scanLine_def isExecutionMode_def localSize_def split: option.splits sum.splits)

lemma scanLine_other:
  "\<not> isExecutionMode line \<Longrightarrow>
     scanLine line p = Inr (p\<lparr>hasControlBarriers := hasControlBarriers p \<or> mentionsBarrier line\<rparr>)"
  by (auto simp: scanLine_def isExecutionMode_def mentionsBarrier_def)

lemma scanLine_cases:
  "scanLine line p = Inr q \<Longrightarrow>
     (isExecutionMode line \<and> localSize line = Some (workgroupSize q)
        \<and> hasControlBarriers q = hasControlBarriers p \<and> memorySize q = memorySize p)
   \<or> (\<not> isExecutionMode line \<and> workgroupSize q = workgroupSize p
        \<and> hasControlBarriers q = (hasControlBarriers p \<or> mentionsBarrier line)
        \<and> memorySize q = memorySize p)"
proof (cases "isExecutionMode line")
  case False
  assume "scanLine line p = Inr q"
  with scanLine_other[OF False, of p] show ?thesis using False by auto
next
  case True
  assume a: "scanLine line p = Inr q"
  show ?thesis
  proof (cases "localSize line")
    case None
    with scanLine_executionMode_fails[OF True None, of p] a show ?thesis by auto
  next
    case (Some s)
    with scanLine_executionMode_ok[OF True Some, of p] a True show ?thesis by auto
  qed
qed

lemma scanAll_memorySize:
  "scanAll lines p = Inr q \<Longrightarrow> memorySize q = memorySize p"
proof (induction lines arbitrary: p)
  case Nil then show ?case by simp
next
  case (Cons l ls)
  then obtain p' where s: "scanLine l p = Inr p'" and r: "scanAll ls p' = Inr q"
    by (auto split: sum.splits)
  from scanLine_cases[OF s] Cons.IH[OF r] show ?case by auto
qed

lemma scanAll_barriers:
  "scanAll lines p = Inr q \<Longrightarrow>
     hasControlBarriers q =
       (hasControlBarriers p \<or> (\<exists>l\<in>set lines. \<not> isExecutionMode l \<and> mentionsBarrier l))"
proof (induction lines arbitrary: p)
  case Nil then show ?case by simp
next
  case (Cons l ls)
  then obtain p' where s: "scanLine l p = Inr p'" and r: "scanAll ls p' = Inr q"
    by (auto split: sum.splits)
  from scanLine_cases[OF s] Cons.IH[OF r] show ?case by auto
qed

lemma scanAll_workgroupSize:
  "scanAll lines p = Inr q \<Longrightarrow>
     (filter isExecutionMode lines = [] \<and> workgroupSize q = workgroupSize p)
   \<or> (filter isExecutionMode lines \<noteq> []
        \<and> localSize (last (filter isExecutionMode lines)) = Some (workgroupSize q))"
proof (induction lines arbitrary: p)
  case Nil then show ?case by simp
next
  case (Cons l ls)
  then obtain p' where s: "scanLine l p = Inr p'" and r: "scanAll ls p' = Inr q"
    by (auto split: sum.splits)
  from scanLine_cases[OF s] Cons.IH[OF r] show ?case by auto
qed

lemma scanAll_fails_iff:
  "(\<exists>err. scanAll lines p = Inl err) \<longleftrightarrow> (\<exists>l\<in>set lines. isExecutionMode l \<and> localSize l = None)"
proof (induction lines arbitrary: p)
  case Nil then show ?case by simp
next
  case (Cons l ls)
  show ?case
  proof (cases "scanLine l p")
    case (Inl e)
    then have "isExecutionMode l \<and> localSize l = None"
      using scanLine_other[of l p] scanLine_executionMode_ok[of l _ p]
      by (cases "isExecutionMode l"; cases "localSize l") auto
    with Inl show ?thesis by auto
  next
    case (Inr p')
    from scanLine_cases[OF Inr] have "\<not> (isExecutionMode l \<and> localSize l = None)"
      by (metis option.distinct(1))
    with Inr Cons.IH[of p'] show ?thesis by auto
  qed
qed

lemmas params_eval = parseProgramParams_def scanLines_scanAll terminatedLines_def executionModeLines_def
   isExecutionMode_def localSize_def mentionsBarrier_def scanLine_def HasPrefix_def
   Sscanf_LocalSize_def formatSpace_def

subsection \<open>Decimal numbers and printers\<close>


















section \<open>Properties\<close>

subsection \<open>The layout parser\<close>

text \<open>
  C1, as the program has it. The string is split at the commas and a layout
  that is returned holds one descriptor for each element of the split, in
  the same order; parsing fails exactly when some element yields no
  descriptor. An element is read the way the scanner of \<^verbatim>\<open>fmt\<close> reads it,
  which is more than the grammar \<^verbatim>\<open>binding:[count]kind\<close> says: blanks may stand
  before the binding, the count and the kind, both numbers may carry a
  sign and must fit 64 bits, the kind is the word up to the next space and
  everything after that word is ignored. Read so, \<^verbatim>\<open>binding:[count]kind\<close>
  yields that binding and count, and \<^verbatim>\<open>binding:kind\<close> that binding and count
  1, in both cases for the kinds \<^verbatim>\<open>buffer\<close> and \<^verbatim>\<open>image\<close> only. The function
  of the model is pure, as the parser has no effect but its result.
\<close>

theorem layout_tokens:
  "(parseDescriptorSetLayout layoutDef = Inr layout
      \<longleftrightarrow> list_all2 tokenYields (Split layoutDef 44) layout)
   \<and> ((\<exists>err. parseDescriptorSetLayout layoutDef = Inl err)
      \<longleftrightarrow> (\<exists>tok\<in>set (Split layoutDef 44). \<not> (\<exists>d. tokenYields tok d)))"
proof
  show "parseDescriptorSetLayout layoutDef = Inr layout
          \<longleftrightarrow> list_all2 tokenYields (Split layoutDef 44) layout"
    unfolding parseDescriptorSetLayout_def parseDescriptors_iff parseDescriptor_iff by simp
next
  show "(\<exists>err. parseDescriptorSetLayout layoutDef = Inl err)
          \<longleftrightarrow> (\<exists>tok\<in>set (Split layoutDef 44). \<not> (\<exists>d. tokenYields tok d))"
    unfolding parseDescriptorSetLayout_def parseDescriptors_fails_iff parseDescriptor_total
      parseDescriptor_iff by simp
qed

theorem layout_tokens_witness:
  "list_all2 tokenYields (Split (runes ''0:buffer,1:[10]image'') 44)
     [\<lparr>binding = 0, type' = descriptorTypeBuffer, count = 1\<rparr>,
      \<lparr>binding = 1, type' = descriptorTypeImage, count = 10\<rparr>]"
proof -
  have h: "parseDescriptorSetLayout (runes ''0:buffer,1:[10]image'')
     = Inr [\<lparr>binding = 0, type' = descriptorTypeBuffer, count = 1\<rparr>,
            \<lparr>binding = 1, type' = descriptorTypeImage, count = 10\<rparr>]"
    by (simp add: scan_eval)
  from layout_tokens[THEN conjunct1, THEN iffD1, OF h] show ?thesis .
qed

text \<open>
  The wording of the specification fails on an element that is not of the
  grammar and is accepted all the same: here text follows the kind.
\<close>

theorem layout_trailing_text_cex:
  "parseDescriptorSetLayout (runes ''0:buffer junk'')
     = Inr [\<lparr>binding = 0, type' = descriptorTypeBuffer, count = 1\<rparr>]
   \<and> Split (runes ''0:buffer junk'') 44 = [runes ''0:buffer junk'']
   \<and> \<not> grammarToken (runes ''0:buffer junk'')"
  by (simp add: scan_eval grammarToken_def grammarKind_def grammarCount_def)

text \<open>
  C2, as the program has it. The parser takes any integers that fit an
  \<^verbatim>\<open>int\<close>: in every descriptor of a layout it returns, binding and count lie
  between \<open>-2^63\<close> and \<open>2^63 - 1\<close>. It sets no lower bound: the
  layout \<^verbatim>\<open>-1:[0]buffer\<close> is accepted with binding \<open>-1\<close> and count \<open>0\<close>, so the
  ranges binding \<open>\<ge> 0\<close> and count \<open>\<ge> 1\<close> of the data model are not
  guaranteed.
\<close>

theorem descriptor_ranges:
  "parseDescriptorSetLayout layoutDef = Inr layout \<Longrightarrow>
     \<forall>d\<in>set layout. - (2 ^ 63) \<le> binding d \<and> binding d < 2 ^ 63 \<and> - (2 ^ 63) \<le> count d \<and> count d < 2 ^ 63"
  using parseDescriptors_fits[of "Split layoutDef 44" "[]" layout]
  by (simp add: parseDescriptorSetLayout_def fitsInt_def intBits_def)

theorem descriptor_ranges_witness:
  "parseDescriptorSetLayout (runes ''7:[3]image'')
     = Inr [\<lparr>binding = 7, type' = descriptorTypeImage, count = 3\<rparr>]
   \<and> - (2 ^ 63) \<le> (7::int) \<and> (7::int) < 2 ^ 63 \<and> - (2 ^ 63) \<le> (3::int) \<and> (3::int) < 2 ^ 63"
proof -
  have h: "parseDescriptorSetLayout (runes ''7:[3]image'')
     = Inr [\<lparr>binding = 7, type' = descriptorTypeImage, count = 3\<rparr>]"
    by (simp add: scan_eval)
  from descriptor_ranges[OF h] show ?thesis using h by simp
qed

theorem range_cex:
  "parseDescriptorSetLayout (runes ''-1:[0]buffer'') = Inr [\<lparr>binding = - 1, type' = descriptorTypeBuffer, count = 0\<rparr>]
   \<and> \<not> (0 \<le> binding \<lparr>binding = - 1, type' = descriptorTypeBuffer, count = 0\<rparr>)
   \<and> \<not> (1 \<le> count \<lparr>binding = - 1, type' = descriptorTypeBuffer, count = 0\<rparr>)"
  by (simp add: scan_eval)

text \<open>
  C10: the empty string is split into one empty element, on which both scans
  fail at end of input, so the parser returns an error; and a layout that
  is returned has one descriptor for each element of the split, of which
  there is at least one, so it is never empty.
\<close>

theorem empty_layout:
  "(\<exists>err. parseDescriptorSetLayout [] = Inl err)
   \<and> (\<forall>layoutDef layout. parseDescriptorSetLayout layoutDef = Inr layout \<longrightarrow> layout \<noteq> [])"
proof (intro conjI allI impI)
  show "\<exists>err. parseDescriptorSetLayout [] = Inl err"
    by (simp add: scan_eval)
next
  fix layoutDef layout
  assume "parseDescriptorSetLayout layoutDef = Inr layout"
  then have "length layout = length (Split layoutDef 44)"
    unfolding parseDescriptorSetLayout_def using parseDescriptors_length by fastforce
  then show "layout \<noteq> []" using Split_nonempty[of layoutDef 44] by auto
qed

theorem empty_layout_witness:
  "parseDescriptorSetLayout (runes ''0:buffer'') = Inr [\<lparr>binding = 0, type' = descriptorTypeBuffer, count = 1\<rparr>]
   \<and> [\<lparr>binding = 0, type' = descriptorTypeBuffer, count = 1\<rparr>] \<noteq> []"
proof -
  have h: "parseDescriptorSetLayout (runes ''0:buffer'') = Inr [\<lparr>binding = 0, type' = descriptorTypeBuffer, count = 1\<rparr>]"
    by (simp add: scan_eval)
  from empty_layout have "\<forall>layoutDef layout. parseDescriptorSetLayout layoutDef = Inr layout \<longrightarrow> layout \<noteq> []" ..
  with h have "[\<lparr>binding = 0, type' = descriptorTypeBuffer, count = 1\<rparr>] \<noteq> []" by blast
  with h show ?thesis by blast
qed

subsection \<open>Program parameters\<close>

text \<open>
  C3, as the program has it. \<^verbatim>\<open>parseProgramParams\<close> returns an error exactly
  when the disassembler fails or some newline-terminated line of the
  disassembly starts with \<^verbatim>\<open>OpExecutionMode\<close> and either does not contain
  \<^verbatim>\<open>LocalSize\<close> followed by a blank or its three integers cannot be scanned. A
  disassembly without any such line is not an error: the result is a
  success whose workgroup size is still (0, 0, 0), so the absence of the
  annotation goes unnoticed.
\<close>

theorem params_error_iff:
  "((\<exists>err. parseProgramParams spirv_dis spirv = Inl err) \<longleftrightarrow>
      (case spirv_dis spirv of
         None \<Rightarrow> True
       | Some stdout \<Rightarrow> \<exists>l\<in>set (executionModeLines stdout). localSize l = None))
   \<and> (\<forall>stdout. spirv_dis spirv = Some stdout \<and> executionModeLines stdout = [] \<longrightarrow>
         (\<exists>p. parseProgramParams spirv_dis spirv = Inr p \<and> workgroupSize p = (0, 0, 0)))"
proof (cases "spirv_dis spirv")
  case None
  then show ?thesis by (simp add: parseProgramParams_def)
next
  case (Some stdout)
  define p0 where "p0 = \<lparr>hasControlBarriers = False, workgroupSize = (0, 0, 0), memorySize = 100000\<rparr>"
  have run: "parseProgramParams spirv_dis spirv = scanAll (terminatedLines stdout) p0"
    using Some by (simp add: parseProgramParams_def scanLines_scanAll p0_def)
  have a: "(\<exists>err. parseProgramParams spirv_dis spirv = Inl err) \<longleftrightarrow>
             (\<exists>l\<in>set (executionModeLines stdout). localSize l = None)"
    unfolding run scanAll_fails_iff executionModeLines_def by auto
  have b: "\<exists>p. parseProgramParams spirv_dis spirv = Inr p \<and> workgroupSize p = (0, 0, 0)"
    if none: "executionModeLines stdout = []"
  proof -
    from none have "\<not> (\<exists>err. scanAll (terminatedLines stdout) p0 = Inl err)"
      unfolding scanAll_fails_iff executionModeLines_def by (auto simp: filter_empty_conv)
    then obtain p where p: "scanAll (terminatedLines stdout) p0 = Inr p"
      by (cases "scanAll (terminatedLines stdout) p0") auto
    from scanAll_workgroupSize[OF p] none have "workgroupSize p = (0, 0, 0)"
      by (simp add: executionModeLines_def p0_def)
    with p run show ?thesis by simp
  qed
  from a b Some show ?thesis by simp
qed

theorem params_error_iff_witness:
  "\<exists>err. parseProgramParams (\<lambda>spirv. Some (runes ''OpExecutionMode %main OriginUpperLeft'' @ [newline])) ()
           = Inl err"
proof -
  let ?dis = "\<lambda>spirv::unit. Some (runes ''OpExecutionMode %main OriginUpperLeft'' @ [newline])"
  have "\<exists>l\<in>set (executionModeLines (runes ''OpExecutionMode %main OriginUpperLeft'' @ [newline])). localSize l = None"
    by (simp add: params_eval newline_def)
  with params_error_iff[of ?dis "()"] show ?thesis by simp
qed

theorem params_missing_annotation_cex:
  "parseProgramParams (\<lambda>spirv. Some (runes ''OpCapability Shader'' @ [newline])) ()
     = Inr \<lparr>hasControlBarriers = False, workgroupSize = (0, 0, 0), memorySize = 100000\<rparr>
   \<and> executionModeLines (runes ''OpCapability Shader'' @ [newline]) = []"
  by (simp add: params_eval newline_def)

text \<open>
  C4, as the program has it. On success the memory size is 100000; the
  workgroup size is what is scanned from the last newline-terminated line
  starting with \<^verbatim>\<open>OpExecutionMode\<close>, or (0, 0, 0) when there is none; and the
  barrier flag is set exactly when some newline-terminated line that does
  not start with \<^verbatim>\<open>OpExecutionMode\<close> contains the text
  \<^verbatim>\<open>OpControlBarrier\<close>, be it as an opcode or inside a name.
\<close>

theorem params_on_success:
  assumes "parseProgramParams spirv_dis spirv = Inr p"
  shows "\<exists>stdout. spirv_dis spirv = Some stdout
           \<and> memorySize p = 100000
           \<and> (hasControlBarriers p \<longleftrightarrow>
                (\<exists>l\<in>set (terminatedLines stdout). \<not> isExecutionMode l \<and> mentionsBarrier l))
           \<and> ((executionModeLines stdout = [] \<and> workgroupSize p = (0, 0, 0))
              \<or> (executionModeLines stdout \<noteq> []
                  \<and> localSize (last (executionModeLines stdout)) = Some (workgroupSize p)))"
proof -
  define p0 where "p0 = \<lparr>hasControlBarriers = False, workgroupSize = (0, 0, 0), memorySize = 100000\<rparr>"
  from assms obtain stdout where out: "spirv_dis spirv = Some stdout"
    by (cases "spirv_dis spirv") (auto simp: parseProgramParams_def)
  with assms have run: "scanAll (terminatedLines stdout) p0 = Inr p"
    by (simp add: parseProgramParams_def scanLines_scanAll p0_def)
  have m: "memorySize p = 100000"
    using scanAll_memorySize[OF run] by (simp add: p0_def)
  have b: "hasControlBarriers p \<longleftrightarrow>
             (\<exists>l\<in>set (terminatedLines stdout). \<not> isExecutionMode l \<and> mentionsBarrier l)"
    using scanAll_barriers[OF run] by (simp add: p0_def)
  have w: "(executionModeLines stdout = [] \<and> workgroupSize p = (0, 0, 0))
              \<or> (executionModeLines stdout \<noteq> []
                  \<and> localSize (last (executionModeLines stdout)) = Some (workgroupSize p))"
    using scanAll_workgroupSize[OF run] by (simp add: p0_def executionModeLines_def)
  from out m b w show ?thesis by blast
qed

theorem params_on_success_witness:
  "parseProgramParams
     (\<lambda>spirv. Some (runes ''OpExecutionMode %main LocalSize 2 3 4'' @ [newline]
                     @ runes ''OpControlBarrier %uint_2 %uint_2 %uint_264'' @ [newline])) ()
     = Inr \<lparr>hasControlBarriers = True, workgroupSize = (2, 3, 4), memorySize = 100000\<rparr>
   \<and> (\<exists>l\<in>set (terminatedLines (runes ''OpExecutionMode %main LocalSize 2 3 4'' @ [newline]
                     @ runes ''OpControlBarrier %uint_2 %uint_2 %uint_264'' @ [newline])).
          \<not> isExecutionMode l \<and> mentionsBarrier l)"
proof -
  let ?out = "runes ''OpExecutionMode %main LocalSize 2 3 4'' @ [newline]
                     @ runes ''OpControlBarrier %uint_2 %uint_2 %uint_264'' @ [newline]"
  let ?p = "\<lparr>hasControlBarriers = True, workgroupSize = (2, 3, 4), memorySize = 100000\<rparr>"
  have h: "parseProgramParams (\<lambda>spirv::unit. Some ?out) () = Inr ?p"
    by (simp add: params_eval scan_eval)
  from params_on_success[OF h] obtain stdout where
    s: "Some ?out = Some stdout"
    and b: "hasControlBarriers ?p \<longleftrightarrow>
              (\<exists>l\<in>set (terminatedLines stdout). \<not> isExecutionMode l \<and> mentionsBarrier l)"
    by blast
  from s have "stdout = ?out" by simp
  with b have "\<exists>l\<in>set (terminatedLines ?out). \<not> isExecutionMode l \<and> mentionsBarrier l"
    by simp
  with h show ?thesis by blast
qed

text \<open>
  The flag follows the text, not the instruction. This is the disassembly of
  a compute shader that declares a shared variable named
  \<^verbatim>\<open>OpControlBarrier\<close> and has no barrier: none of its lines is an
  \<^verbatim>\<open>OpControlBarrier\<close> instruction, and the flag is set.
\<close>

theorem params_barrier_name_cex:
  "parseProgramParams
     (\<lambda>spirv. Some
        (runes ''OpCapability Shader'' @ [newline]
         @ runes ''%1 = OpExtInstImport '' @ [34] @ runes ''GLSL.std.450'' @ [34] @ [newline]
         @ runes ''OpMemoryModel Logical GLSL450'' @ [newline]
         @ runes ''OpEntryPoint GLCompute %main '' @ [34] @ runes ''main'' @ [34] @ [newline]
         @ runes ''OpExecutionMode %main LocalSize 1 1 1'' @ [newline]
         @ runes ''OpSource GLSL 450'' @ [newline]
         @ runes ''OpName %main '' @ [34] @ runes ''main'' @ [34] @ [newline]
         @ runes ''OpName %OpControlBarrier '' @ [34] @ runes ''OpControlBarrier'' @ [34] @ [newline]
         @ runes ''%void = OpTypeVoid'' @ [newline]
         @ runes ''%3 = OpTypeFunction %void'' @ [newline]
         @ runes ''%uint = OpTypeInt 32 0'' @ [newline]
         @ runes ''%_ptr_Workgroup_uint = OpTypePointer Workgroup %uint'' @ [newline]
         @ runes ''%OpControlBarrier = OpVariable %_ptr_Workgroup_uint Workgroup'' @ [newline]
         @ runes ''%uint_1 = OpConstant %uint 1'' @ [newline]
         @ runes ''%main = OpFunction %void None %3'' @ [newline]
         @ runes ''%5 = OpLabel'' @ [newline]
         @ runes ''OpStore %OpControlBarrier %uint_1'' @ [newline]
         @ runes ''OpReturn'' @ [newline]
         @ runes ''OpFunctionEnd'' @ [newline])) ()
     = Inr \<lparr>hasControlBarriers = True, workgroupSize = (1, 1, 1), memorySize = 100000\<rparr>
   \<and> barrierInstructions
        (runes ''OpCapability Shader'' @ [newline]
         @ runes ''%1 = OpExtInstImport '' @ [34] @ runes ''GLSL.std.450'' @ [34] @ [newline]
         @ runes ''OpMemoryModel Logical GLSL450'' @ [newline]
         @ runes ''OpEntryPoint GLCompute %main '' @ [34] @ runes ''main'' @ [34] @ [newline]
         @ runes ''OpExecutionMode %main LocalSize 1 1 1'' @ [newline]
         @ runes ''OpSource GLSL 450'' @ [newline]
         @ runes ''OpName %main '' @ [34] @ runes ''main'' @ [34] @ [newline]
         @ runes ''OpName %OpControlBarrier '' @ [34] @ runes ''OpControlBarrier'' @ [34] @ [newline]
         @ runes ''%void = OpTypeVoid'' @ [newline]
         @ runes ''%3 = OpTypeFunction %void'' @ [newline]
         @ runes ''%uint = OpTypeInt 32 0'' @ [newline]
         @ runes ''%_ptr_Workgroup_uint = OpTypePointer Workgroup %uint'' @ [newline]
         @ runes ''%OpControlBarrier = OpVariable %_ptr_Workgroup_uint Workgroup'' @ [newline]
         @ runes ''%uint_1 = OpConstant %uint 1'' @ [newline]
         @ runes ''%main = OpFunction %void None %3'' @ [newline]
         @ runes ''%5 = OpLabel'' @ [newline]
         @ runes ''OpStore %OpControlBarrier %uint_1'' @ [newline]
         @ runes ''OpReturn'' @ [newline]
         @ runes ''OpFunctionEnd'' @ [newline])
     = []"
  by (simp add: params_eval scan_eval barrierInstructions_def barrierInstruction_def)

subsection \<open>Emitted sources\<close>







subsection \<open>Names: the object file and the renamed symbols\<close>

text \<open>
  C5: the argument list handed to objcopy is, for each of the six coroutine
  symbols in the order of the source, the option \<^verbatim>\<open>--redefine-sym\<close> followed by
  \<^verbatim>\<open>old=name_old\<close>, and then the object file; no other symbol is named.
\<close>

theorem renameArgs_six_pairs:
  "renameArgs name syso =
     [''--redefine-sym'', ''coroutine_begin='' @ name @ ''_coroutine_begin'',
      ''--redefine-sym'', ''coroutine_await='' @ name @ ''_coroutine_await'',
      ''--redefine-sym'', ''coroutine_destroy='' @ name @ ''_coroutine_destroy'',
      ''--redefine-sym'', ''coroutine_begin.resume='' @ name @ ''_coroutine_begin.resume'',
      ''--redefine-sym'', ''coroutine_begin.destroy='' @ name @ ''_coroutine_begin.destroy'',
      ''--redefine-sym'', ''coroutine_begin.cleanup='' @ name @ ''_coroutine_begin.cleanup'',
      syso]"
  by (simp add: renameArgs_def symbols_def)

text \<open>
  C8, as the program has it: the object file is named
  \<^verbatim>\<open><program>_linux_<arch>.syso\<close>, with the operating system between the two
  (the specification leaves \<^verbatim>\<open>linux_\<close> out); \<^verbatim>\<open><program>\<close> is the base name of the
  shader file without its extension: put back together with the extension
  it is the base name.
\<close>

theorem syso_name:
  "sysoName (programName file) arch = programName file @ ''_linux_'' @ arch @ ''.syso''
   \<and> programName file @ Ext (Base file) = Base file"
  by (simp add: sysoName_def programName_def Ext_suffix Let_def)

theorem syso_name_cex:
  "programName ''shaders/example.comp'' = ''example''
   \<and> sysoName ''example'' ''amd64'' = ''example_linux_amd64.syso''
   \<and> sysoName ''example'' ''amd64'' \<noteq> ''example'' @ ''_'' @ ''amd64'' @ ''.syso''"
  by (simp add: programName_def Base_def Ext_def sysoName_def isPathSeparator_def)

end
